theory Spec2Isabelle
  imports Complex_Main "HOL-Library.Multiset"
begin

section \<open>The edge telemetry pipeline of rasperature\<close>

text \<open>
  A shallow embedding of \<^verbatim>\<open>pi-app/cloud_publisher.py\<close>, \<^verbatim>\<open>pi-app/sensors/base.py\<close> and
  \<^verbatim>\<open>pi-app/sensor_manager.py\<close>. Python dictionaries that the code iterates over are
  association lists in insertion order, dictionaries that are only looked up are maps.
  Python floats (metric values, thresholds, clock readings) are modelled as exact real
  numbers; Python's unbounded integers are \<^typ>\<open>int\<close>.
\<close>

subsection \<open>Readings\<close>

type_synonym metrics = "(string \<times> real) list"

text \<open>A value of the JSON configuration: a string, a number, a boolean, or anything else.\<close>

datatype config_value = Text string | Number real | Flag bool | Other

text \<open>
  The dictionary built by \<^verbatim>\<open>BaseSensor.read_with_metadata\<close>. The keys \<^verbatim>\<open>error\<close> and
  \<^verbatim>\<open>error_count\<close> exist only in a reading with status \<^verbatim>\<open>error\<close>; the three device keys
  are added later by the collection loop.
\<close>

record reading =
  sensor_id :: string
  sensor_type :: string
  timestamp :: real
  readings :: metrics
  status :: string
  error :: "string option"
  error_count :: "int option"
  device_id :: "config_value option"
  customer_id :: "config_value option"
  location :: "config_value option"

subsection \<open>The cloud publisher\<close>

text \<open>The bytes \<^verbatim>\<open>json.dumps(reading).encode('utf-8')\<close>.\<close>

datatype message = Encoded reading

text \<open>
  One call of the Pub/Sub client: \<^verbatim>\<open>publisher.publish\<close> raises, or it returns a future
  whose \<^verbatim>\<open>result(timeout=10)\<close> raises, or the message is delivered. The transport is
  external: it is a parameter that gives the outcome of a call from the number of calls
  made before it and the message.
\<close>

datatype outcome = Delivered | PublishRaises | ResultRaises

type_synonym transport = "nat \<Rightarrow> message \<Rightarrow> outcome"

text \<open>
  The file \<^verbatim>\<open>offline_buffer.json\<close>: missing, holding a JSON array of strings, or holding
  text that is no JSON document.
\<close>

datatype offline_file = Missing | Json_array "string list" | Malformed

record cloud_config =
  cfg_enabled :: "bool option"
  cfg_project_id :: "string option"
  cfg_topic_name :: "string option"
  cfg_batch_size :: "int option"
  cfg_max_batch_wait :: "real option"

text \<open>
  The attributes of \<^verbatim>\<open>CloudPublisher\<close>. \<open>transport_log\<close> is the list of messages handed to
  \<^verbatim>\<open>self.publisher.publish\<close> so far, oldest first, and \<open>offline_file\<close> is the content of
  the file named by \<^verbatim>\<open>self.offline_buffer_file\<close>: the two effects of the class outside
  its own attributes.
\<close>

record publisher =
  enabled :: bool
  project_id :: string
  topic_name :: string
  batch_size :: int
  max_batch_wait :: real
  message_queue :: "reading list"
  last_published_values :: "string \<rightharpoonup> metrics"
  publish_count :: int
  error_count :: int
  last_batch_time :: real
  offline_buffer :: "message list"
  offline_file :: offline_file
  transport_log :: "message list"

definition config_get :: "'a option \<Rightarrow> 'a \<Rightarrow> 'a" where
  "config_get v d = (case v of None \<Rightarrow> d | Some x \<Rightarrow> x)"

text \<open>
  \<^verbatim>\<open>CloudPublisher.__init__\<close>. \<open>client_ok\<close> says whether \<^verbatim>\<open>_initialize_publisher\<close> could
  build the Pub/Sub client (it clears \<^verbatim>\<open>enabled\<close> otherwise), \<open>now\<close> is \<^verbatim>\<open>time.time()\<close>
  and \<open>file\<close> is what \<^verbatim>\<open>offline_buffer.json\<close> holds when the publisher is built.
\<close>

definition CloudPublisher_init :: "cloud_config \<Rightarrow> bool \<Rightarrow> real \<Rightarrow> offline_file \<Rightarrow> publisher" where
  "CloudPublisher_init config client_ok now file =
     \<lparr> enabled = (config_get (cfg_enabled config) False \<and> client_ok),
       project_id = config_get (cfg_project_id config) [],
       topic_name = config_get (cfg_topic_name config) ''sensor-data-raw'',
       batch_size = config_get (cfg_batch_size config) 10,
       max_batch_wait = config_get (cfg_max_batch_wait config) 5,
       message_queue = [],
       last_published_values = Map.empty,
       publish_count = 0,
       error_count = 0,
       last_batch_time = now,
       offline_buffer = [],
       offline_file = file,
       transport_log = [] \<rparr>"

text \<open>\<^verbatim>\<open>thresholds.get(metric, 0)\<close>.\<close>

definition threshold_get :: "(string \<rightharpoonup> real) \<Rightarrow> string \<Rightarrow> real" where
  "threshold_get thresholds metric = (case thresholds metric of None \<Rightarrow> 0 | Some t \<Rightarrow> t)"

text \<open>The \<^verbatim>\<open>for metric, value in current_readings.items()\<close> loop of \<^verbatim>\<open>should_publish\<close>.\<close>

fun metric_changed :: "metrics \<Rightarrow> metrics \<Rightarrow> (string \<rightharpoonup> real) \<Rightarrow> bool" where
  "metric_changed [] last_reading thresholds = False"
| "metric_changed ((metric, value) # rest) last_reading thresholds =
     (case map_of last_reading metric of
        None \<Rightarrow> metric_changed rest last_reading thresholds
      | Some last_value \<Rightarrow>
          if \<bar>value - last_value\<bar> > threshold_get thresholds metric then True
          else metric_changed rest last_reading thresholds)"

definition should_publish :: "publisher \<Rightarrow> reading \<Rightarrow> (string \<rightharpoonup> real) \<Rightarrow> bool" where
  "should_publish self reading thresholds =
     (case last_published_values self (sensor_id reading) of
        None \<Rightarrow> True
      | Some last_reading \<Rightarrow> metric_changed (readings reading) last_reading thresholds)"

text \<open>
  The filtering loop of \<^verbatim>\<open>publish\<close>: the \<^verbatim>\<open>and\<close> evaluates \<^verbatim>\<open>should_publish\<close> only for
  a reading whose status is \<^verbatim>\<open>ok\<close>; an accepted reading is appended to
  \<^verbatim>\<open>filtered_readings\<close> and its metric map becomes the snapshot of its sensor.
\<close>

fun filter_readings :: "reading list \<Rightarrow> (string \<rightharpoonup> real) \<Rightarrow> publisher \<Rightarrow> reading list
    \<Rightarrow> publisher \<times> reading list" where
  "filter_readings [] thresholds self filtered_readings = (self, filtered_readings)"
| "filter_readings (reading # rest) thresholds self filtered_readings =
     (if status reading = ''ok'' \<and> should_publish self reading thresholds
      then filter_readings rest thresholds
             (self\<lparr>last_published_values :=
                (last_published_values self)(sensor_id reading \<mapsto> readings reading)\<rparr>)
             (filtered_readings @ [reading])
      else filter_readings rest thresholds self filtered_readings)"

text \<open>
  The \<^verbatim>\<open>while self.message_queue and len(messages) < self.batch_size\<close> loop of
  \<^verbatim>\<open>_publish_batch\<close>: it returns what is left of the queue and the prepared messages.
\<close>

fun prepare_messages :: "int \<Rightarrow> reading list \<Rightarrow> message list \<Rightarrow> reading list \<times> message list" where
  "prepare_messages bs [] messages = ([], messages)"
| "prepare_messages bs (reading # queue) messages =
     (if int (length messages) < bs
      then prepare_messages bs queue (messages @ [Encoded reading])
      else (reading # queue, messages))"

text \<open>
  The first \<^verbatim>\<open>for\<close> loop of \<^verbatim>\<open>_publish_batch\<close>: every message is handed to the client;
  the result is the call log, and the futures when no call raised.
\<close>

fun send_messages :: "transport \<Rightarrow> message list \<Rightarrow> message list \<Rightarrow> outcome list
    \<Rightarrow> message list \<times> outcome list option" where
  "send_messages tr [] calls futures = (calls, Some futures)"
| "send_messages tr (message_data # rest) calls futures =
     (case tr (length calls) message_data of
        PublishRaises \<Rightarrow> (calls @ [message_data], None)
      | future \<Rightarrow> send_messages tr rest (calls @ [message_data]) (futures @ [future]))"

text \<open>The second loop, \<^verbatim>\<open>future.result(timeout=10)\<close>: true when no future raises.\<close>

fun wait_futures :: "outcome list \<Rightarrow> bool" where
  "wait_futures [] = True"
| "wait_futures (future # rest) = (if future = Delivered then wait_futures rest else False)"

text \<open>The loop \<^verbatim>\<open>while messages: self.offline_buffer.append(messages.pop())\<close>.\<close>

function move_to_offline :: "message list \<Rightarrow> message list \<Rightarrow> message list" where
  "move_to_offline messages buffer =
     (if messages = [] then buffer
      else move_to_offline (butlast messages) (buffer @ [last messages]))"
  by pat_completeness auto
termination
  by (relation "measure (\<lambda>(messages, buffer). length messages)") auto

text \<open>
  \<^verbatim>\<open>_save_offline_buffer\<close>. \<^verbatim>\<open>open(..., 'w')\<close> truncates the file and \<^verbatim>\<open>json.dump\<close> writes
  the list; the elements of the buffer are \<^verbatim>\<open>bytes\<close> objects, on which \<^verbatim>\<open>json.dump\<close>
  raises \<^verbatim>\<open>TypeError\<close> after the opening bracket has been written. The handler only
  prints, so a buffer that is not empty leaves text that is no JSON document. (A failure of
  the file system itself is not modelled.)
\<close>

definition save_offline_buffer :: "publisher \<Rightarrow> publisher" where
  "save_offline_buffer self =
     self\<lparr>offline_file := (if offline_buffer self = [] then Json_array [] else Malformed)\<rparr>"

text \<open>
  \<^verbatim>\<open>_publish_batch\<close>; \<open>now\<close> is the \<^verbatim>\<open>time.time()\<close> read after a successful batch. An
  exception of either loop leads to the handler, which counts one error and moves the
  whole list \<^verbatim>\<open>messages\<close> to the offline buffer. The readings are dictionaries of strings
  and numbers, on which \<^verbatim>\<open>json.dumps\<close> does not raise; the client \<^verbatim>\<open>self.publisher\<close> exists
  whenever the queue is not empty, since only an enabled publisher enqueues.
\<close>

definition publish_batch :: "transport \<Rightarrow> real \<Rightarrow> publisher \<Rightarrow> publisher" where
  "publish_batch tr now self =
     (if message_queue self = [] then self
      else
        (case prepare_messages (batch_size self) (message_queue self) [] of
           (queue, messages) \<Rightarrow>
             (case send_messages tr messages (transport_log self) [] of
                (calls, sent) \<Rightarrow>
                  (if (case sent of None \<Rightarrow> False | Some futures \<Rightarrow> wait_futures futures)
                   then self\<lparr>message_queue := queue, transport_log := calls,
                          publish_count := publish_count self + int (length messages),
                          last_batch_time := now\<rparr>
                   else save_offline_buffer
                          (self\<lparr>message_queue := queue, transport_log := calls,
                             error_count := error_count self + 1,
                             offline_buffer := move_to_offline messages (offline_buffer self)\<rparr>)))))"

text \<open>
  \<^verbatim>\<open>publish\<close>; \<open>now\<close> is the \<^verbatim>\<open>time.time()\<close> of the trigger test and \<open>later\<close> the one read by
  \<^verbatim>\<open>_publish_batch\<close>.
\<close>

definition publish :: "transport \<Rightarrow> real \<Rightarrow> real \<Rightarrow> publisher \<Rightarrow> reading list \<Rightarrow> (string \<rightharpoonup> real)
    \<Rightarrow> publisher" where
  "publish tr now later self new_readings thresholds =
     (if \<not> enabled self then self
      else
        (case filter_readings new_readings thresholds self [] of
           (self1, filtered_readings) \<Rightarrow>
             if filtered_readings = [] then self1
             else
               (let self2 = self1\<lparr>message_queue := message_queue self1 @ filtered_readings\<rparr>;
                    time_since_batch = now - last_batch_time self2
                in if int (length (message_queue self2)) \<ge> batch_size self2
                      \<or> time_since_batch \<ge> max_batch_wait self2
                   then publish_batch tr later self2
                   else self2)))"

text \<open>\<^verbatim>\<open>flush\<close> and \<^verbatim>\<open>shutdown\<close>.\<close>

definition flush :: "transport \<Rightarrow> real \<Rightarrow> publisher \<Rightarrow> publisher" where
  "flush tr now self = (if message_queue self \<noteq> [] then publish_batch tr now self else self)"

definition shutdown :: "transport \<Rightarrow> real \<Rightarrow> publisher \<Rightarrow> publisher" where
  "shutdown tr now self = (if enabled self then flush tr now self else self)"

subsection \<open>Runs of publish calls\<close>





subsection \<open>Sensors\<close>

text \<open>
  What the abstract method \<^verbatim>\<open>read\<close> does in one call: it returns a metric map or raises an
  exception, whose text is kept.
\<close>

datatype read_result = ReadOk metrics | ReadRaises string

definition read_failed :: "read_result \<Rightarrow> bool" where
  "read_failed result = (case result of ReadRaises e \<Rightarrow> True | ReadOk v \<Rightarrow> False)"

text \<open>
  The attributes of \<^verbatim>\<open>BaseSensor\<close> (the sensor's own configuration map is left out);
  \<open>sensor_type\<close> is the constant string that \<^verbatim>\<open>get_sensor_type\<close> returns.
\<close>

record sensor =
  sensor_id :: string
  sensor_type :: string
  last_reading :: "metrics option"
  last_reading_time :: "real option"
  is_active :: bool
  error_count :: int

text \<open>
  \<^verbatim>\<open>read_with_metadata\<close>, given what \<^verbatim>\<open>self.read()\<close> does and the time \<^verbatim>\<open>datetime.now()\<close>:
  the \<^verbatim>\<open>try\<close> branch and the \<^verbatim>\<open>except\<close> branch. (\<^verbatim>\<open>get_sensor_type\<close> returns a constant
  in every sensor class and does not raise.)
\<close>

definition read_with_metadata :: "read_result \<Rightarrow> real \<Rightarrow> sensor \<Rightarrow> sensor \<times> reading" where
  "read_with_metadata result now self =
     (case result of
        ReadOk values \<Rightarrow>
          (self\<lparr>last_reading := Some values, last_reading_time := Some now, error_count := 0\<rparr>,
           \<lparr> reading.sensor_id = sensor_id self, reading.sensor_type = sensor_type self,
             timestamp = now, readings = values, status = ''ok'',
             error = None, reading.error_count = None,
             device_id = None, customer_id = None, location = None \<rparr>)
      | ReadRaises e \<Rightarrow>
          (self\<lparr>error_count := error_count self + 1\<rparr>,
           \<lparr> reading.sensor_id = sensor_id self, reading.sensor_type = sensor_type self,
             timestamp = now, readings = [], status = ''error'',
             error = Some e, reading.error_count = Some (error_count self + 1),
             device_id = None, customer_id = None, location = None \<rparr>))"

text \<open>The dictionary of \<^verbatim>\<open>get_status\<close>, without the configuration entry.\<close>

record sensor_status =
  status_sensor_id :: string
  status_sensor_type :: string
  status_is_active :: bool
  status_last_reading_time :: "real option"
  status_last_reading :: "metrics option"
  status_error_count :: int

definition get_status :: "sensor \<Rightarrow> sensor_status" where
  "get_status self =
     \<lparr> status_sensor_id = sensor_id self, status_sensor_type = sensor_type self,
       status_is_active = is_active self, status_last_reading_time = last_reading_time self,
       status_last_reading = last_reading self, status_error_count = error_count self \<rparr>"

text \<open>Successive calls of \<^verbatim>\<open>read_with_metadata\<close> on one sensor, each with its result and time.\<close>

fun read_repeatedly :: "(read_result \<times> real) list \<Rightarrow> sensor \<Rightarrow> sensor" where
  "read_repeatedly [] self = self"
| "read_repeatedly ((result, now) # rest) self =
     read_repeatedly rest (fst (read_with_metadata result now self))"

subsection \<open>The sensor manager\<close>


datatype thread_event = Thread_joined | Thread_started

text \<open>
  The attributes of \<^verbatim>\<open>SensorManager\<close>. \<open>sensors\<close> holds the values of the dictionary in
  insertion order; \<open>config_file\<close> is the configuration last written by \<^verbatim>\<open>save_config\<close>;
  \<open>collection_thread\<close> and \<open>data_callback\<close> say whether the attribute is set. The worker
  thread itself is not modelled: \<open>thread_events\<close> records the \<^verbatim>\<open>join\<close> and \<^verbatim>\<open>start\<close> calls
  made on worker threads, and \<open>callback_log\<close> the batches handed to the callback.
\<close>

record manager =
  sensors :: "sensor list"
  config :: "string \<rightharpoonup> config_value"
  config_file :: "(string \<rightharpoonup> config_value) option"
  is_running :: bool
  collection_thread :: bool
  data_callback :: bool
  thread_events :: "thread_event list"
  callback_log :: "reading list list"







definition save_config :: "manager \<Rightarrow> manager" where
  "save_config self = self\<lparr>config_file := Some (config self)\<rparr>"

definition stop_collection :: "manager \<Rightarrow> manager" where
  "stop_collection self =
     (if \<not> is_running self then self
      else if collection_thread self
           then self\<lparr>is_running := False, thread_events := thread_events self @ [Thread_joined]\<rparr>
           else self\<lparr>is_running := False\<rparr>)"

definition start_collection :: "manager \<Rightarrow> manager" where
  "start_collection self =
     (if is_running self then self
      else self\<lparr>is_running := True, collection_thread := True,
                thread_events := thread_events self @ [Thread_started]\<rparr>)"

text \<open>\<^verbatim>\<open>update_config\<close>: the manager after the call and the value returned.\<close>

definition update_config :: "(string \<rightharpoonup> config_value) \<Rightarrow> manager \<Rightarrow> manager \<times> bool" where
  "update_config updates self =
     (let self1 = save_config (self\<lparr>config := config self ++ updates\<rparr>)
      in if updates ''update_frequency'' \<noteq> None \<and> is_running self1
         then (start_collection (stop_collection self1), True)
         else (self1, True))"

subsection \<open>Concrete inputs\<close>

text \<open>An \<^verbatim>\<open>ok\<close> reading of sensor \<open>sid\<close> with metric map \<open>ms\<close>, tagged by the collection loop.\<close>

definition example_reading :: "string \<Rightarrow> metrics \<Rightarrow> reading" where
  "example_reading sid ms =
     \<lparr> reading.sensor_id = sid, reading.sensor_type = ''BMP280'', timestamp = 0, readings = ms,
       status = ''ok'', error = None, reading.error_count = None,
       device_id = Some (Text ''rpi_001''), customer_id = Some (Text ''customer_001''),
       location = Some (Text ''unknown'') \<rparr>"

definition example_error_reading :: "string \<Rightarrow> reading" where
  "example_error_reading sid =
     \<lparr> reading.sensor_id = sid, reading.sensor_type = ''BMP280'', timestamp = 0, readings = [],
       status = ''error'', error = Some ''Sensor not initialized'',
       reading.error_count = Some 1,
       device_id = Some (Text ''rpi_001''), customer_id = Some (Text ''customer_001''),
       location = Some (Text ''unknown'') \<rparr>"

definition three_readings :: "reading list" where
  "three_readings =
     [example_reading ''s1'' [(''temperature'', 20)],
      example_reading ''s2'' [(''temperature'', 21)],
      example_reading ''s3'' [(''temperature'', 22)]]"

text \<open>An enabled publisher with batch size \<open>bs\<close>, built at time 0 with no offline file.\<close>

definition example_publisher :: "int \<Rightarrow> publisher" where
  "example_publisher bs =
     CloudPublisher_init
       \<lparr> cfg_enabled = Some True, cfg_project_id = None, cfg_topic_name = None,
         cfg_batch_size = Some bs, cfg_max_batch_wait = None \<rparr> True 0 Missing"

text \<open>The same publisher after it accepted \<^verbatim>\<open>{temperature: 20.0}\<close> from sensor \<^verbatim>\<open>s1\<close>.\<close>

definition warm_publisher :: publisher where
  "warm_publisher =
     (example_publisher 10)\<lparr>last_published_values := [''s1'' \<mapsto> [(''temperature'', 20)]]\<rparr>"

text \<open>The publisher with a queue already filled.\<close>

definition queued_publisher :: "int \<Rightarrow> reading list \<Rightarrow> publisher" where
  "queued_publisher bs queue = (example_publisher bs)\<lparr>message_queue := queue\<rparr>"


definition default_config :: "string \<rightharpoonup> config_value" where
  "default_config =
     [''device_id'' \<mapsto> Text ''rpi_001'', ''customer_id'' \<mapsto> Text ''customer_001'',
      ''location'' \<mapsto> Text ''unknown'', ''update_frequency'' \<mapsto> Number 60]"

definition example_sensor :: "string \<Rightarrow> sensor" where
  "example_sensor sid =
     \<lparr> sensor_id = sid, sensor_type = ''BMP280'', last_reading = None,
       last_reading_time = None, is_active = True, error_count = 0 \<rparr>"

text \<open>A manager with two sensors, a callback and a running collection loop.\<close>

definition running_manager :: manager where
  "running_manager =
     \<lparr> sensors = [example_sensor ''s1'', example_sensor ''s2''],
       config = default_config, config_file = Some default_config,
       is_running = True, collection_thread = True, data_callback = True,
       thread_events = [Thread_started], callback_log = [] \<rparr>"


section \<open>Properties\<close>

subsection \<open>The downsample filter\<close>




subsection \<open>Error readings\<close>



lemma filter_readings_ok_only:
  "filter_readings rs th self acc = filter_readings (filter (\<lambda>r. status r = ''ok'') rs) th self acc"
  by (induction rs arbitrary: self acc) simp_all

lemma filter_readings_status:
  "set (snd (filter_readings rs th self acc)) \<subseteq> set acc \<union> {r \<in> set rs. status r = ''ok''}"
proof (induction rs arbitrary: self acc)
  case Nil
  show ?case by simp
next
  case (Cons r rs)
  show ?case
  proof (cases "status r = ''ok'' \<and> should_publish self r th")
    case True
    from Cons [of "self\<lparr>last_published_values := (last_published_values self)(reading.sensor_id r \<mapsto> readings r)\<rparr>"
               "acc @ [r]"] True
    show ?thesis by auto
  next
    case False
    from Cons [of self acc] False show ?thesis by auto
  qed
qed


text \<open>
  Claim C4. In the filtering loop of \<^verbatim>\<open>publish\<close> a reading with status \<^verbatim>\<open>error\<close> is
  skipped: neither the list of accepted readings nor any snapshot changes, whatever
  \<^verbatim>\<open>should_publish\<close> would say of it. A call of \<^verbatim>\<open>publish\<close> does exactly what it does on the
  readings without those that are not \<^verbatim>\<open>ok\<close>, so no such reading is enqueued or sent, and
  every reading the loop accepts has status \<^verbatim>\<open>ok\<close>.
\<close>

theorem error_readings_dropped:
  "(status r = ''error'' \<longrightarrow>
      filter_readings (r # rest) thresholds self acc = filter_readings rest thresholds self acc)
   \<and> publish tr now later self rs thresholds
       = publish tr now later self (filter (\<lambda>r. status r = ''ok'') rs) thresholds
   \<and> (\<forall>r \<in> set (snd (filter_readings rs thresholds self [])). status r = ''ok'')"
proof (intro conjI impI)
  assume "status r = ''error''"
  then show "filter_readings (r # rest) thresholds self acc = filter_readings rest thresholds self acc"
    by simp
next
  show "publish tr now later self rs thresholds
       = publish tr now later self (filter (\<lambda>r. status r = ''ok'') rs) thresholds"
    unfolding publish_def by (subst filter_readings_ok_only) (rule refl)
next
  show "\<forall>r \<in> set (snd (filter_readings rs thresholds self [])). status r = ''ok''"
    using filter_readings_status [of rs thresholds self "[]"] by auto
qed

theorem error_readings_dropped_witness:
  "filter_readings [example_error_reading ''s1'', example_reading ''s2'' [(''temperature'', 21)]]
       Map.empty warm_publisher []
     = filter_readings [example_reading ''s2'' [(''temperature'', 21)]] Map.empty warm_publisher []
   \<and> last_published_values
        (fst (filter_readings [example_error_reading ''s1''] Map.empty warm_publisher [])) ''s1''
       = Some [(''temperature'', 20)]
   \<and> snd (filter_readings [example_error_reading ''s1''] Map.empty warm_publisher []) = []"
  using error_readings_dropped [of "example_error_reading ''s1''"
      "[example_reading ''s2'' [(''temperature'', 21)]]" Map.empty warm_publisher "[]"]
    error_readings_dropped [of "example_error_reading ''s1''" "[]" Map.empty warm_publisher "[]"]
  by (simp add: example_error_reading_def warm_publisher_def)


subsection \<open>One batch\<close>

lemma prepare_messages_acc:
  "prepare_messages bs queue messages =
     (drop (nat (bs - int (length messages))) queue,
      messages @ map Encoded (take (nat (bs - int (length messages))) queue))"
proof (induction bs queue messages rule: prepare_messages.induct)
  case (1 bs messages)
  show ?case by simp
next
  case (2 bs r queue messages)
  show ?case
  proof (cases "int (length messages) < bs")
    case True
    then have "nat (bs - int (length messages)) = Suc (nat (bs - int (length (messages @ [Encoded r]))))"
      by simp
    with 2 True show ?thesis by simp
  next
    case False
    then show ?thesis by simp
  qed
qed

lemma prepare_messages_eq:
  "prepare_messages bs queue [] = (drop (nat bs) queue, map Encoded (take (nat bs) queue))"
  by (simp add: prepare_messages_acc)

lemma move_to_offline_eq: "move_to_offline messages buffer = buffer @ rev messages"
proof (induction messages buffer rule: move_to_offline.induct)
  case (1 messages buffer)
  show ?case
  proof (cases "messages = []")
    case True
    then show ?thesis by simp
  next
    case False
    then have "messages = butlast messages @ [last messages]" by simp
    then have r: "rev messages = last messages # rev (butlast messages)"
      by (metis rev.simps(2) rev_append rev_rev_ident append_Cons append_Nil rev.simps(1))
    have "move_to_offline messages buffer
        = move_to_offline (butlast messages) (buffer @ [last messages])"
      using False by (subst move_to_offline.simps) simp
    also have "\<dots> = (buffer @ [last messages]) @ rev (butlast messages)"
      using 1 False by blast
    also have "\<dots> = buffer @ rev messages"
      by (simp only: r append_assoc append_Cons append_Nil)
    finally show ?thesis .
  qed
qed

lemma send_messages_calls:
  "\<exists>k \<le> length ms. fst (send_messages tr ms calls futures) = calls @ take k ms"
proof (induction ms arbitrary: calls futures)
  case Nil
  show ?case by simp
next
  case (Cons m ms)
  show ?case
  proof (cases "tr (length calls) m = PublishRaises")
    case True
    then have "fst (send_messages tr (m # ms) calls futures) = calls @ take 1 (m # ms)" by simp
    then show ?thesis by (metis One_nat_def Suc_leI length_Cons zero_less_Suc)
  next
    case False
    then have eq: "send_messages tr (m # ms) calls futures
        = send_messages tr ms (calls @ [m]) (futures @ [tr (length calls) m])"
      by (cases "tr (length calls) m") simp_all
    from Cons [of "calls @ [m]" "futures @ [tr (length calls) m]"]
    obtain k where "k \<le> length ms"
      "fst (send_messages tr ms (calls @ [m]) (futures @ [tr (length calls) m])) = (calls @ [m]) @ take k ms"
      by blast
    then have "Suc k \<le> length (m # ms) \<and> fst (send_messages tr (m # ms) calls futures) = calls @ take (Suc k) (m # ms)"
      using eq by simp
    then show ?thesis by blast
  qed
qed

lemma wait_futures_iff: "wait_futures futures = (\<forall>f \<in> set futures. f = Delivered)"
  by (induction futures) auto

lemma send_messages_futures:
  "send_messages tr ms calls futures = (calls', Some futures') \<Longrightarrow>
     calls' = calls @ ms \<and> (\<exists>outs. futures' = futures @ outs \<and> length outs = length ms
        \<and> (\<forall>i < length ms. outs ! i = tr (length calls + i) (ms ! i)))"
proof (induction ms arbitrary: calls futures)
  case Nil
  then show ?case by simp
next
  case (Cons m ms)
  show ?case
  proof (cases "tr (length calls) m = PublishRaises")
    case True
    with Cons.prems show ?thesis by simp
  next
    case False
    then have eq: "send_messages tr (m # ms) calls futures
        = send_messages tr ms (calls @ [m]) (futures @ [tr (length calls) m])"
      by (cases "tr (length calls) m") simp_all
    with Cons.prems have "send_messages tr ms (calls @ [m]) (futures @ [tr (length calls) m]) = (calls', Some futures')"
      by simp
    from Cons.IH [OF this] obtain outs where
      c: "calls' = (calls @ [m]) @ ms" and
      o: "futures' = (futures @ [tr (length calls) m]) @ outs" "length outs = length ms"
         "\<forall>i < length ms. outs ! i = tr (length (calls @ [m]) + i) (ms ! i)"
      by blast
    let ?outs = "tr (length calls) m # outs"
    have "futures' = futures @ ?outs" using o by simp
    moreover have "length ?outs = length (m # ms)" using o by simp
    moreover have "\<forall>i < length (m # ms). ?outs ! i = tr (length calls + i) ((m # ms) ! i)"
    proof (intro allI impI)
      fix i assume "i < length (m # ms)"
      then show "?outs ! i = tr (length calls + i) ((m # ms) ! i)"
        using o(3) by (cases i) simp_all
    qed
    ultimately show ?thesis using c by auto
  qed
qed


lemma send_messages_raised:
  "snd (send_messages tr ms calls futures) = None \<Longrightarrow>
     \<exists>i < length ms. tr (length calls + i) (ms ! i) = PublishRaises"
proof (induction ms arbitrary: calls futures)
  case Nil
  then show ?case by simp
next
  case (Cons m ms)
  show ?case
  proof (cases "tr (length calls) m = PublishRaises")
    case True
    then have "0 < length (m # ms) \<and> tr (length calls + 0) ((m # ms) ! 0) = PublishRaises" by simp
    then show ?thesis by blast
  next
    case False
    then have "send_messages tr (m # ms) calls futures
        = send_messages tr ms (calls @ [m]) (futures @ [tr (length calls) m])"
      by (cases "tr (length calls) m") simp_all
    with Cons.prems have "snd (send_messages tr ms (calls @ [m]) (futures @ [tr (length calls) m])) = None"
      by simp
    from Cons.IH [OF this] obtain i where "i < length ms"
      "tr (length (calls @ [m]) + i) (ms ! i) = PublishRaises" by blast
    then have "Suc i < length (m # ms) \<and> tr (length calls + Suc i) ((m # ms) ! Suc i) = PublishRaises"
      by simp
    then show ?thesis by blast
  qed
qed


text \<open>
  What \<^verbatim>\<open>_publish_batch\<close> does on a queue that is not empty: the batch is the first
  \<^verbatim>\<open>batch_size\<close> readings of the queue; either every call of the batch is delivered, or
  the handler runs.
\<close>

lemma publish_batch_result:
  assumes "message_queue self \<noteq> []"
  defines "batch \<equiv> map Encoded (take (nat (batch_size self)) (message_queue self))"
  shows "(publish_batch tr now self =
            self\<lparr>message_queue := drop (nat (batch_size self)) (message_queue self),
                 transport_log := transport_log self @ batch,
                 publish_count := publish_count self + int (length batch),
                 last_batch_time := now\<rparr>
          \<and> (\<forall>i < length batch. tr (length (transport_log self) + i) (batch ! i) = Delivered))
       \<or> (\<exists>k \<le> length batch.
            publish_batch tr now self =
              save_offline_buffer
                (self\<lparr>message_queue := drop (nat (batch_size self)) (message_queue self),
                   transport_log := transport_log self @ take k batch,
                   publisher.error_count := publisher.error_count self + 1,
                   offline_buffer := offline_buffer self @ rev batch\<rparr>)
            \<and> (\<exists>i < length batch. tr (length (transport_log self) + i) (batch ! i) \<noteq> Delivered))"
proof -
  obtain calls sent where s: "send_messages tr batch (transport_log self) [] = (calls, sent)"
    by (cases "send_messages tr batch (transport_log self) []") blast
  have unfold: "publish_batch tr now self =
      (if (case sent of None \<Rightarrow> False | Some futures \<Rightarrow> wait_futures futures)
       then self\<lparr>message_queue := drop (nat (batch_size self)) (message_queue self),
              transport_log := calls,
              publish_count := publish_count self + int (length batch),
              last_batch_time := now\<rparr>
       else save_offline_buffer
              (self\<lparr>message_queue := drop (nat (batch_size self)) (message_queue self),
                 transport_log := calls,
                 publisher.error_count := publisher.error_count self + 1,
                 offline_buffer := offline_buffer self @ rev batch\<rparr>))"
    using assms(1) s
    by (simp add: publish_batch_def prepare_messages_eq move_to_offline_eq batch_def
          del: move_to_offline.simps)
  show ?thesis
  proof (cases sent)
    case None
    from send_messages_calls [of batch tr "transport_log self" "[]"] s
    obtain k where k: "k \<le> length batch" "calls = transport_log self @ take k batch" by auto
    from send_messages_raised [of tr batch "transport_log self" "[]"] s None
    obtain i where "i < length batch"
      "tr (length (transport_log self) + i) (batch ! i) = PublishRaises" by auto
    then have "\<exists>i < length batch. tr (length (transport_log self) + i) (batch ! i) \<noteq> Delivered"
      by (metis outcome.distinct(1))
    with None k unfold show ?thesis by auto
  next
    case (Some futures)
    from send_messages_futures [of tr batch "transport_log self" "[]" calls futures] s Some
    have c: "calls = transport_log self @ batch"
      and f: "length futures = length batch"
         "\<forall>i < length batch. futures ! i = tr (length (transport_log self) + i) (batch ! i)"
      by auto
    show ?thesis
    proof (cases "wait_futures futures")
      case True
      then have "\<forall>i < length batch. tr (length (transport_log self) + i) (batch ! i) = Delivered"
        using f by (simp add: wait_futures_iff) (metis nth_mem)
      with True Some c unfold show ?thesis by simp
    next
      case False
      then obtain i where "i < length batch" "futures ! i \<noteq> Delivered"
        using f(1) by (auto simp: wait_futures_iff in_set_conv_nth)
      then have "\<exists>i < length batch. tr (length (transport_log self) + i) (batch ! i) \<noteq> Delivered"
        using f(2) by auto
      moreover have "publish_batch tr now self =
              save_offline_buffer
                (self\<lparr>message_queue := drop (nat (batch_size self)) (message_queue self),
                   transport_log := transport_log self @ take (length batch) batch,
                   publisher.error_count := publisher.error_count self + 1,
                   offline_buffer := offline_buffer self @ rev batch\<rparr>)"
        using False Some unfold c by simp
      ultimately show ?thesis by blast
    qed
  qed
qed



lemma publish_batch_snapshots:
  "last_published_values (publish_batch tr now self) = last_published_values self"
  by (simp add: publish_batch_def save_offline_buffer_def split: prod.splits)


text \<open>
  Claim C2. When the transport fails on every call, a flush attempt on a queue that is
  not empty (with a positive batch size) puts every message of the batch into the offline
  buffer, leaves \<^verbatim>\<open>publish_count\<close> as it was and adds exactly 1 to \<^verbatim>\<open>error_count\<close>. The
  messages have left the queue, and the attempt handed a prefix of the batch to the
  transport, each message at most once: nothing is sent again.
\<close>

theorem failed_flush_accounting:
  assumes "message_queue self \<noteq> []" and "0 < batch_size self"
    and "\<forall>n m. tr n m \<noteq> Delivered"
    and "batch = map Encoded (take (nat (batch_size self)) (message_queue self))"
  shows "mset (offline_buffer (publish_batch tr now self)) = mset (offline_buffer self) + mset batch
    \<and> publish_count (publish_batch tr now self) = publish_count self
    \<and> publisher.error_count (publish_batch tr now self) = publisher.error_count self + 1
    \<and> message_queue (publish_batch tr now self)
        = drop (nat (batch_size self)) (message_queue self)
    \<and> (\<exists>k \<le> length batch.
          transport_log (publish_batch tr now self) = transport_log self @ take k batch)"
proof -
  have "batch \<noteq> []" using assms by simp
  then have "0 < length batch" by simp
  then have "\<not> (\<forall>i < length batch. tr (length (transport_log self) + i) (batch ! i) = Delivered)"
    using assms(3) by blast
  with publish_batch_result [OF assms(1), of tr now] assms(4)
  obtain k where "k \<le> length batch"
    "publish_batch tr now self =
       save_offline_buffer
         (self\<lparr>message_queue := drop (nat (batch_size self)) (message_queue self),
            transport_log := transport_log self @ take k batch,
            publisher.error_count := publisher.error_count self + 1,
            offline_buffer := offline_buffer self @ rev batch\<rparr>)"
    by auto
  then show ?thesis by (auto simp: save_offline_buffer_def)
qed


theorem failed_flush_accounting_witness:
  "publisher.error_count (publish_batch (\<lambda>n m. PublishRaises) 7 (queued_publisher 2 three_readings)) = 1
   \<and> publish_count (publish_batch (\<lambda>n m. PublishRaises) 7 (queued_publisher 2 three_readings)) = 0
   \<and> mset (offline_buffer (publish_batch (\<lambda>n m. PublishRaises) 7 (queued_publisher 2 three_readings)))
       = mset (map Encoded (take 2 three_readings))
   \<and> message_queue (publish_batch (\<lambda>n m. PublishRaises) 7 (queued_publisher 2 three_readings))
       = drop 2 three_readings"
proof -
  let ?p = "queued_publisher 2 three_readings"
  have q: "message_queue ?p \<noteq> []"
    by (simp add: queued_publisher_def three_readings_def)
  have b: "0 < batch_size ?p"
    by (simp add: queued_publisher_def example_publisher_def CloudPublisher_init_def config_get_def)
  have t: "\<forall>n m. (\<lambda>n m. PublishRaises) n m \<noteq> Delivered" by simp
  have e: "map Encoded (take 2 three_readings)
      = map Encoded (take (nat (batch_size ?p)) (message_queue ?p))"
    by (simp add: queued_publisher_def example_publisher_def CloudPublisher_init_def config_get_def)
  from failed_flush_accounting [of ?p "\<lambda>n m. PublishRaises"
      "map Encoded (take 2 three_readings)" 7, OF q b t e]
  show ?thesis
    by (simp add: queued_publisher_def example_publisher_def CloudPublisher_init_def config_get_def)
qed

text \<open>
  Claim C10. When some transport call of a flush attempt fails, the handler pops the
  prepared messages from the end of the list, so the batch enters the offline buffer in the
  reverse of its queue order; the buffer holds the batch in its send order only when the
  batch reads the same in both directions.
\<close>

theorem failed_batch_reversed:
  assumes "message_queue self \<noteq> []"
    and "batch = map Encoded (take (nat (batch_size self)) (message_queue self))"
    and "i < length batch"
    and "tr (length (transport_log self) + i) (batch ! i) \<noteq> Delivered"
  shows "offline_buffer (publish_batch tr now self) = offline_buffer self @ rev batch
    \<and> (offline_buffer (publish_batch tr now self) = offline_buffer self @ batch
         \<longleftrightarrow> rev batch = batch)"
proof -
  from assms(3,4)
  have "\<not> (\<forall>i < length batch. tr (length (transport_log self) + i) (batch ! i) = Delivered)"
    by blast
  with publish_batch_result [OF assms(1), of tr now] assms(2)
  obtain k where
    "publish_batch tr now self =
       save_offline_buffer
         (self\<lparr>message_queue := drop (nat (batch_size self)) (message_queue self),
            transport_log := transport_log self @ take k batch,
            publisher.error_count := publisher.error_count self + 1,
            offline_buffer := offline_buffer self @ rev batch\<rparr>)"
    by auto
  then show ?thesis by (auto simp: save_offline_buffer_def)
qed


theorem failed_batch_reversed_witness:
  "offline_buffer (publish_batch (\<lambda>n m. if n = 1 then ResultRaises else Delivered) 7
       (queued_publisher 2 three_readings))
     = [Encoded (example_reading ''s2'' [(''temperature'', 21)]),
        Encoded (example_reading ''s1'' [(''temperature'', 20)])]
   \<and> offline_buffer (publish_batch (\<lambda>n m. if n = 1 then ResultRaises else Delivered) 7
       (queued_publisher 2 three_readings))
     \<noteq> map Encoded (take 2 three_readings)"
proof -
  let ?p = "queued_publisher 2 three_readings"
  let ?tr = "\<lambda>(n::nat) (m::message). if n = 1 then ResultRaises else Delivered"
  let ?batch = "map Encoded (take 2 three_readings)"
  have q: "message_queue ?p \<noteq> []"
    by (simp add: queued_publisher_def three_readings_def)
  have e: "?batch = map Encoded (take (nat (batch_size ?p)) (message_queue ?p))"
    by (simp add: queued_publisher_def example_publisher_def CloudPublisher_init_def config_get_def)
  have i: "1 < length ?batch" by (simp add: three_readings_def)
  have f: "?tr (length (transport_log ?p) + 1) (?batch ! 1) \<noteq> Delivered"
    by (simp add: queued_publisher_def example_publisher_def CloudPublisher_init_def)
  from failed_batch_reversed [of ?p ?batch 1 ?tr 7, OF q e i f] show ?thesis
    by (simp add: queued_publisher_def example_publisher_def CloudPublisher_init_def
          three_readings_def example_reading_def)
qed


lemma flush_delivered:
  "message_queue (flush (\<lambda>n m. Delivered) now self)
     = drop (nat (batch_size self)) (message_queue self)"
proof (cases "message_queue self = []")
  case True
  then show ?thesis by (simp add: flush_def)
next
  case False
  from publish_batch_result [OF False, of "\<lambda>n m. Delivered" now]
  show ?thesis using False by (auto simp: flush_def)
qed


text \<open>
  Claim C6 fails on the code. With a transport that delivers every message, \<^verbatim>\<open>flush\<close> leaves
  in the queue whatever lies beyond the first \<^verbatim>\<open>batch_size\<close> readings. With batch size 1,
  one call of \<^verbatim>\<open>publish\<close> with three accepted readings sends the first and leaves two in
  the queue; \<^verbatim>\<open>shutdown\<close> then sends the second, and the third stays in the queue of a
  publisher that is shut down.
\<close>

theorem flush_sends_one_batch_only:
  "message_queue (flush (\<lambda>n m. Delivered) now self)
     = drop (nat (batch_size self)) (message_queue self)
   \<and> message_queue (publish (\<lambda>n m. Delivered) 60 60 (example_publisher 1) three_readings Map.empty)
     = [example_reading ''s2'' [(''temperature'', 21)], example_reading ''s3'' [(''temperature'', 22)]]
   \<and> message_queue (shutdown (\<lambda>n m. Delivered) 61
        (publish (\<lambda>n m. Delivered) 60 60 (example_publisher 1) three_readings Map.empty))
     = [example_reading ''s3'' [(''temperature'', 22)]]
   \<and> transport_log (shutdown (\<lambda>n m. Delivered) 61
        (publish (\<lambda>n m. Delivered) 60 60 (example_publisher 1) three_readings Map.empty))
     = [Encoded (example_reading ''s1'' [(''temperature'', 20)]),
        Encoded (example_reading ''s2'' [(''temperature'', 21)])]"
  by (simp add: flush_delivered)
     (simp add: publish_def shutdown_def flush_def publish_batch_def should_publish_def
        example_publisher_def CloudPublisher_init_def config_get_def three_readings_def
        example_reading_def)


text \<open>
  Claim C5 fails on the code. \<^verbatim>\<open>__init__\<close> starts with an empty offline buffer whatever
  \<^verbatim>\<open>offline_buffer.json\<close> holds: nothing calls \<^verbatim>\<open>_load_offline_buffer\<close>. And a failed flush
  does not leave the buffer in the file: \<^verbatim>\<open>json.dump\<close> raises on the \<^verbatim>\<open>bytes\<close> objects the
  buffer holds.
\<close>

theorem offline_file_not_loaded:
  "offline_buffer (CloudPublisher_init cfg client_ok now file) = []
   \<and> offline_buffer (CloudPublisher_init cfg client_ok now (Json_array [''m1'', ''m2''])) = []
   \<and> offline_file (publish_batch (\<lambda>n m. PublishRaises) now (queued_publisher 10 three_readings))
       = Malformed"
  by (simp add: CloudPublisher_init_def publish_batch_def save_offline_buffer_def
        queued_publisher_def example_publisher_def three_readings_def config_get_def
        move_to_offline_eq del: move_to_offline.simps)


subsection \<open>Flushing by size\<close>





















subsection \<open>Sensors and the collection loop\<close>













lemma read_repeatedly_snoc:
  "read_repeatedly (rs @ [(result, now)]) s
     = fst (read_with_metadata result now (read_repeatedly rs s))"
  by (induction rs arbitrary: s) auto

lemma read_repeatedly_count:
  "sensor.error_count (read_repeatedly rs s) =
     (if \<forall>x \<in> set rs. read_failed (fst x) then sensor.error_count s + int (length rs)
      else int (length (takeWhile (\<lambda>x. read_failed (fst x)) (rev rs))))"
proof (induction rs rule: rev_induct)
  case Nil
  show ?case by simp
next
  case (snoc x rs)
  obtain result now where x: "x = (result, now)" by (cases x) auto
  show ?case
  proof (cases result)
    case (ReadOk v)
    then show ?thesis
      by (auto simp: x read_repeatedly_snoc read_with_metadata_def read_failed_def)
  next
    case (ReadRaises e)
    then have "sensor.error_count (read_repeatedly (rs @ [x]) s)
        = sensor.error_count (read_repeatedly rs s) + 1"
      by (simp add: x read_repeatedly_snoc read_with_metadata_def)
    with snoc ReadRaises show ?thesis
      by (auto simp: x read_failed_def)
  qed
qed


text \<open>
  Claim C9. A successful read sets the error count of the sensor to 0. After any sequence
  of reads the count is the number of failures since the last success (the count at the
  start plus the number of reads when none succeeded). It is the value \<^verbatim>\<open>get_status\<close>
  reports, and the value an error reading carries.
\<close>

theorem error_count_counts_consecutive_failures:
  "sensor.error_count (fst (read_with_metadata (ReadOk v) now s)) = 0
   \<and> sensor.error_count (read_repeatedly rs s) =
       (if \<forall>x \<in> set rs. read_failed (fst x) then sensor.error_count s + int (length rs)
        else int (length (takeWhile (\<lambda>x. read_failed (fst x)) (rev rs))))
   \<and> status_error_count (get_status s) = sensor.error_count s
   \<and> reading.error_count (snd (read_with_metadata (ReadRaises e) now s))
       = Some (sensor.error_count (fst (read_with_metadata (ReadRaises e) now s)))"
  using read_repeatedly_count [of rs s]
  by (simp add: read_with_metadata_def get_status_def)


theorem error_count_counts_consecutive_failures_witness:
  "sensor.error_count (read_repeatedly
      [(ReadRaises ''a'', 1), (ReadRaises ''b'', 2), (ReadOk [(''temperature'', 20)], 3),
       (ReadRaises ''c'', 4)] (example_sensor ''s1'')) = 1
   \<and> sensor.error_count (read_repeatedly
      [(ReadRaises ''a'', 1), (ReadRaises ''b'', 2)] (example_sensor ''s1'')) = 2"
  using error_count_counts_consecutive_failures [of "[]" 0 "example_sensor ''s1''"
      "[(ReadRaises ''a'', 1), (ReadRaises ''b'', 2), (ReadOk [(''temperature'', 20)], 3),
        (ReadRaises ''c'', 4)]" "''x''"]
    error_count_counts_consecutive_failures [of "[]" 0 "example_sensor ''s1''"
      "[(ReadRaises ''a'', 1), (ReadRaises ''b'', 2)]" "''x''"]
  by (simp add: read_failed_def example_sensor_def)

subsection \<open>Changing the update frequency\<close>

text \<open>
  Claim C7, amended. \<^verbatim>\<open>update_config\<close> restarts the collection loop itself: when
  \<^verbatim>\<open>update_frequency\<close> is among the updates and the loop is running, the call joins the
  worker thread (if one is recorded) and then starts a new one, once each, and the loop is
  running afterwards; in every other case it touches no thread. The configuration is
  updated and the call returns \<^verbatim>\<open>True\<close> either way.
\<close>

theorem update_config_restart_rule:
  "thread_events (fst (update_config updates self))
     = thread_events self
       @ (if updates ''update_frequency'' \<noteq> None \<and> is_running self
          then (if collection_thread self then [Thread_joined] else []) @ [Thread_started]
          else [])
   \<and> is_running (fst (update_config updates self)) = is_running self
   \<and> config (fst (update_config updates self)) = config self ++ updates
   \<and> snd (update_config updates self)"
  by (simp add: update_config_def save_config_def stop_collection_def start_collection_def Let_def)


text \<open>
  Claim C7 as stated fails: on a running manager, an update of \<^verbatim>\<open>update_frequency\<close> makes
  \<^verbatim>\<open>update_config\<close> join the worker thread and start a new one without any call by the
  caller.
\<close>

theorem update_config_restarts_itself:
  "thread_events (fst (update_config [''update_frequency'' \<mapsto> Number 30] running_manager))
     = thread_events running_manager @ [Thread_joined, Thread_started]
   \<and> thread_events (fst (update_config [''update_frequency'' \<mapsto> Number 30] running_manager))
     \<noteq> thread_events running_manager"
  by (simp add: update_config_def save_config_def stop_collection_def start_collection_def
        running_manager_def)


end
